theory Spec2Isabelle
  imports
    Main
    "HOL-Library.Word"
    "HOL-Library.Char_ord"
    "HOL-Library.List_Lexorder"
    "HOL-Library.AList"
    "HOL-Library.Sublist"
begin

unbundle bit_operations_syntax

section \<open>The Mixpanel export client (mixpanel/mixpanel.go)\<close>

text \<open>
  A shallow embedding of \<^verbatim>\<open>mixpanel.go\<close>. Go strings are byte sequences and are modelled
  as \<^typ>\<open>string\<close> (a list of 8-bit characters). The source refers to three names that it does
  not declare (\<^verbatim>\<open>NewWithUrl\<close>, \<^verbatim>\<open>m.MakeArgs\<close>, \<^verbatim>\<open>m.AddSignature\<close>); they are read as the
  declared \<^verbatim>\<open>NewWithURL\<close>, \<^verbatim>\<open>makeArgs\<close> and \<^verbatim>\<open>addSignature\<close>.
\<close>

subsection \<open>Credentials\<close>

record Mixpanel =
  Product :: string
  Key :: string
  Secret :: string
  BaseURL :: string

definition MixpanelBaseURL :: string where
  "MixpanelBaseURL = ''http://mixpanel.com/api''"

definition NewWithURL :: "string \<Rightarrow> string \<Rightarrow> string \<Rightarrow> string \<Rightarrow> Mixpanel" where
  "NewWithURL product key secret baseURL =
     \<lparr>Product = product, Key = key, Secret = secret, BaseURL = baseURL\<rparr>"

definition New :: "string \<Rightarrow> string \<Rightarrow> string \<Rightarrow> Mixpanel" where
  "New product key secret = NewWithURL product key secret MixpanelBaseURL"

subsection \<open>Library: \<^verbatim>\<open>net/url\<close> query values\<close>

text \<open>
  \<^verbatim>\<open>url.Values\<close> is \<^verbatim>\<open>map[string][]string\<close>. A Go map has no order of its own and iterates in
  an unspecified order, so a value is modelled as an association list with distinct keys, in
  whatever order; the mapping it stands for is \<^term>\<open>map_of\<close> of the list.
\<close>

type_synonym Values = "(string \<times> string list) list"

definition Values_Get :: "Values \<Rightarrow> string \<Rightarrow> string list" where
  "Values_Get v key = (case map_of v key of None \<Rightarrow> [] | Some vs \<Rightarrow> vs)"

definition Values_Set :: "string \<Rightarrow> string \<Rightarrow> Values \<Rightarrow> Values" where
  "Values_Set key val v = AList.update key [val] v"

definition Values_Add :: "string \<Rightarrow> string \<Rightarrow> Values \<Rightarrow> Values" where
  "Values_Add key val v = AList.update key (Values_Get v key @ [val]) v"

definition upperhex :: "nat \<Rightarrow> char" where
  "upperhex n = ''0123456789ABCDEF'' ! (n mod 16)"

definition shouldEscape :: "char \<Rightarrow> bool" where
  "shouldEscape c =
     (\<not> ((CHR ''a'' \<le> c \<and> c \<le> CHR ''z'') \<or> (CHR ''A'' \<le> c \<and> c \<le> CHR ''Z'')
          \<or> (CHR ''0'' \<le> c \<and> c \<le> CHR ''9'')
          \<or> c = CHR ''-'' \<or> c = CHR ''_'' \<or> c = CHR ''.'' \<or> c = CHR ''~''))"

definition escape_byte :: "char \<Rightarrow> string" where
  "escape_byte c =
     (if c = CHR '' '' then ''+''
      else if shouldEscape c
        then [CHR ''%'', upperhex (of_char c div 16), upperhex (of_char c mod 16)]
      else [c])"

definition QueryEscape :: "string \<Rightarrow> string" where
  "QueryEscape s = concat (map escape_byte s)"

text \<open>
  \<^verbatim>\<open>Values.Encode\<close>: the keys are collected by ranging over the map, sorted, and each
  \<^verbatim>\<open>key=value\<close> pair is written with \<^verbatim>\<open>&\<close> between pairs.
\<close>

fun join_amp :: "string list \<Rightarrow> string" where
  "join_amp [] = []"
| "join_amp [p] = p"
| "join_amp (p # ps) = p @ ''&'' @ join_amp ps"

definition Values_Encode :: "Values \<Rightarrow> string" where
  "Values_Encode v =
     join_amp (concat (map (\<lambda>k. map (\<lambda>x. QueryEscape k @ ''='' @ QueryEscape x) (Values_Get v k))
                           (sort (map fst v))))"

subsection \<open>Library: \<^verbatim>\<open>crypto/md5\<close>\<close>

text \<open>The MD5 digest of RFC 1321 over bytes, as \<^verbatim>\<open>md5.New\<close>, \<^verbatim>\<open>Write\<close> and \<^verbatim>\<open>Sum(nil)\<close> compute it.\<close>

definition md5_K :: "32 word list" where
  "md5_K = [
    0xd76aa478, 0xe8c7b756, 0x242070db, 0xc1bdceee, 0xf57c0faf, 0x4787c62a, 0xa8304613, 0xfd469501,
    0x698098d8, 0x8b44f7af, 0xffff5bb1, 0x895cd7be, 0x6b901122, 0xfd987193, 0xa679438e, 0x49b40821,
    0xf61e2562, 0xc040b340, 0x265e5a51, 0xe9b6c7aa, 0xd62f105d, 0x02441453, 0xd8a1e681, 0xe7d3fbc8,
    0x21e1cde6, 0xc33707d6, 0xf4d50d87, 0x455a14ed, 0xa9e3e905, 0xfcefa3f8, 0x676f02d9, 0x8d2a4c8a,
    0xfffa3942, 0x8771f681, 0x6d9d6122, 0xfde5380c, 0xa4beea44, 0x4bdecfa9, 0xf6bb4b60, 0xbebfbc70,
    0x289b7ec6, 0xeaa127fa, 0xd4ef3085, 0x04881d05, 0xd9d4d039, 0xe6db99e5, 0x1fa27cf8, 0xc4ac5665,
    0xf4292244, 0x432aff97, 0xab9423a7, 0xfc93a039, 0x655b59c3, 0x8f0ccc92, 0xffeff47d, 0x85845dd1,
    0x6fa87e4f, 0xfe2ce6e0, 0xa3014314, 0x4e0811a1, 0xf7537e82, 0xbd3af235, 0x2ad7d2bb, 0xeb86d391]"

definition md5_S :: "nat list" where
  "md5_S = [7, 12, 17, 22, 7, 12, 17, 22, 7, 12, 17, 22, 7, 12, 17, 22,
            5, 9, 14, 20, 5, 9, 14, 20, 5, 9, 14, 20, 5, 9, 14, 20,
            4, 11, 16, 23, 4, 11, 16, 23, 4, 11, 16, 23, 4, 11, 16, 23,
            6, 10, 15, 21, 6, 10, 15, 21, 6, 10, 15, 21, 6, 10, 15, 21]"

type_synonym md5_state = "32 word \<times> 32 word \<times> 32 word \<times> 32 word"

definition md5_step :: "32 word list \<Rightarrow> md5_state \<Rightarrow> nat \<Rightarrow> md5_state" where
  "md5_step M st i = (case st of (a, b, c, d) \<Rightarrow>
     let (f, g) =
           (if i < 16 then ((b AND c) OR (NOT b AND d), i)
            else if i < 32 then ((d AND b) OR (NOT d AND c), (5 * i + 1) mod 16)
            else if i < 48 then (b XOR c XOR d, (3 * i + 5) mod 16)
            else (c XOR (b OR NOT d), (7 * i) mod 16));
         f' = f + a + md5_K ! i + M ! g
     in (d, b + word_rotl (md5_S ! i) f', b, c))"

fun le_word32 :: "8 word list \<Rightarrow> 32 word" where
  "le_word32 [b0, b1, b2, b3] =
     ucast b0 OR push_bit 8 (ucast b1) OR push_bit 16 (ucast b2) OR push_bit 24 (ucast b3)"
| "le_word32 _ = 0"

fun chunks :: "nat \<Rightarrow> 'a list \<Rightarrow> 'a list list" where
  "chunks n [] = []"
| "chunks n xs = (if n = 0 then [xs] else take n xs # chunks n (drop n xs))"

definition md5_block :: "md5_state \<Rightarrow> 8 word list \<Rightarrow> md5_state" where
  "md5_block st blk = (case st of (a0, b0, c0, d0) \<Rightarrow>
     case foldl (md5_step (map le_word32 (chunks 4 blk))) st [0..<64] of (a, b, c, d) \<Rightarrow>
       (a0 + a, b0 + b, c0 + c, d0 + d))"

definition bytes_le :: "nat \<Rightarrow> 'a::len word \<Rightarrow> 8 word list" where
  "bytes_le n w = map (\<lambda>i. ucast (drop_bit (8 * i) w)) [0..<n]"

definition md5_pad :: "8 word list \<Rightarrow> 8 word list" where
  "md5_pad msg = msg @ [0x80] @ replicate ((119 - length msg mod 64) mod 64) 0
       @ bytes_le 8 (of_nat (8 * length msg) :: 64 word)"

definition md5_Sum :: "8 word list \<Rightarrow> 8 word list" where
  "md5_Sum msg =
     (case foldl md5_block (0x67452301, 0xefcdab89, 0x98badcfe, 0x10325476)
             (chunks 64 (md5_pad msg)) of
        (a, b, c, d) \<Rightarrow> concat (map (bytes_le 4) [a, b, c, d]))"

definition byte_of_char :: "char \<Rightarrow> 8 word" where
  "byte_of_char c = of_nat (of_char c)"

definition char_of_byte :: "8 word \<Rightarrow> char" where
  "char_of_byte b = char_of (unat b)"

text \<open>The conversion \<^verbatim>\<open>string(bs)\<close> of a byte slice: the same bytes, as a string.\<close>

definition string_of_bytes :: "8 word list \<Rightarrow> string" where
  "string_of_bytes bs = map char_of_byte bs"

text \<open>
  The textual rendering of a digest that the specification asks for: two lower-case
  hexadecimal digits per byte (\<^verbatim>\<open>hex.EncodeToString\<close>). The source never calls it; it is here to
  state what the signature is compared with.
\<close>

definition lowerhex :: "nat \<Rightarrow> char" where
  "lowerhex n = ''0123456789abcdef'' ! (n mod 16)"

definition hex_EncodeToString :: "8 word list \<Rightarrow> string" where
  "hex_EncodeToString bs = concat (map (\<lambda>b. [lowerhex (unat b div 16), lowerhex (unat b mod 16)]) bs)"

definition is_hex_digit :: "char \<Rightarrow> bool" where
  "is_hex_digit c =
     ((CHR ''0'' \<le> c \<and> c \<le> CHR ''9'') \<or> (CHR ''a'' \<le> c \<and> c \<le> CHR ''f'')
      \<or> (CHR ''A'' \<le> c \<and> c \<le> CHR ''F''))"

subsection \<open>\<^verbatim>\<open>addSignature\<close>\<close>

text \<open>
  \<^verbatim>\<open>hash := md5.New(); io.WriteString(hash, args.Encode()); io.WriteString(hash, m.Secret);
  args.Set("sig", string(hash.Sum(nil)))\<close>
\<close>

definition signature :: "Mixpanel \<Rightarrow> Values \<Rightarrow> string" where
  "signature m args = string_of_bytes (md5_Sum (map byte_of_char (Values_Encode args @ Secret m)))"

definition addSignature :: "Mixpanel \<Rightarrow> Values \<Rightarrow> Values" where
  "addSignature m args = Values_Set ''sig'' (signature m args) args"

subsection \<open>\<^verbatim>\<open>makeArgs\<close> and the request of \<^verbatim>\<open>ExportDate\<close>\<close>

text \<open>
  The conversion \<^verbatim>\<open>string(n)\<close> of an integer, here of the \<^verbatim>\<open>int64\<close> that
  \<^verbatim>\<open>time.Now().Unix()+10000\<close> is: the UTF-8 encoding of the code point \<open>n\<close>, and of U+FFFD
  when \<open>n\<close> is not a valid code point (negative, above U+10FFFF, or a surrogate).
\<close>

definition encoderune :: "nat \<Rightarrow> string" where
  "encoderune r =
     (if r \<le> 0x7F then [char_of r]
      else if r \<le> 0x7FF then [char_of (0xC0 + r div 64), char_of (0x80 + r mod 64)]
      else if r > 0x10FFFF \<or> (0xD800 \<le> r \<and> r \<le> 0xDFFF) then [CHR 0xEF, CHR 0xBF, CHR 0xBD]
      else if r \<le> 0xFFFF then
        [char_of (0xE0 + r div 4096), char_of (0x80 + (r div 64) mod 64), char_of (0x80 + r mod 64)]
      else
        [char_of (0xF0 + r div 262144), char_of (0x80 + (r div 4096) mod 64),
         char_of (0x80 + (r div 64) mod 64), char_of (0x80 + r mod 64)])"

definition string_of_int64 :: "64 word \<Rightarrow> string" where
  "string_of_int64 n =
     (if sint n < 0 \<or> 0x10FFFF < sint n then [CHR 0xEF, CHR 0xBF, CHR 0xBD]
      else encoderune (nat (sint n)))"

text \<open>Decimal digits (\<^verbatim>\<open>strconv\<close>), used by \<^verbatim>\<open>time.Format\<close> and to state what a decimal
  rendering of the expiry would be.\<close>

fun decimal :: "nat \<Rightarrow> string" where
  "decimal n = (if n < 10 then [char_of (48 + n)] else decimal (n div 10) @ [char_of (48 + n mod 10)])"

definition FormatInt :: "int \<Rightarrow> string" where
  "FormatInt i = (if i < 0 then CHR ''-'' # decimal (nat (- i)) else decimal (nat i))"

text \<open>\<^verbatim>\<open>makeArgs\<close>; \<open>now\<close> is what \<^verbatim>\<open>time.Now().Unix()\<close> returns.\<close>

definition makeArgs :: "Mixpanel \<Rightarrow> 64 word \<Rightarrow> Values" where
  "makeArgs m now =
     Values_Set ''expire'' (string_of_int64 (now + 10000))
       (Values_Set ''api_key'' (Key m)
         (Values_Set ''format'' ''json'' []))"

text \<open>
  The calendar date of a \<^verbatim>\<open>time.Time\<close> and \<^verbatim>\<open>date.Format("2006-01-02")\<close>: the year with at
  least four digits (a sign first when negative), the month and the day with two.
\<close>

record Date =
  Year :: int
  Month :: nat
  Day :: nat

definition appendInt :: "int \<Rightarrow> nat \<Rightarrow> string" where
  "appendInt x width =
     (if x < 0 then [CHR ''-''] else [])
     @ replicate (width - length (decimal (nat \<bar>x\<bar>))) (CHR ''0'') @ decimal (nat \<bar>x\<bar>)"

definition Format_date :: "Date \<Rightarrow> string" where
  "Format_date d =
     appendInt (Year d) 4 @ ''-'' @ appendInt (int (Month d)) 2 @ ''-'' @ appendInt (int (Day d)) 2"

text \<open>The loop over \<^verbatim>\<open>*moreArgs\<close>: every value of every key is added.\<close>

definition add_moreArgs :: "Values \<Rightarrow> Values \<Rightarrow> Values" where
  "add_moreArgs extra args = foldl (\<lambda>a (k, vs). foldl (\<lambda>a' x. Values_Add k x a') a vs) args extra"

definition ExportDate_args :: "Mixpanel \<Rightarrow> 64 word \<Rightarrow> Date \<Rightarrow> Values option \<Rightarrow> Values" where
  "ExportDate_args m now date moreArgs =
     (let args = makeArgs m now;
          args = (case moreArgs of None \<Rightarrow> args | Some extra \<Rightarrow> add_moreArgs extra args);
          day = Format_date date;
          args = Values_Set ''start'' day args;
          args = Values_Set ''end'' day args
      in addSignature m args)"

definition ExportDate_url :: "Mixpanel \<Rightarrow> 64 word \<Rightarrow> Date \<Rightarrow> Values option \<Rightarrow> string" where
  "ExportDate_url m now date moreArgs =
     BaseURL m @ ''/2.0/export?'' @ Values_Encode (ExportDate_args m now date moreArgs)"

subsection \<open>The response stream and \<^verbatim>\<open>JSONEvent\<close>\<close>

text \<open>
  JSON values, which are also the values that a \<^verbatim>\<open>map[string]interface{}\<close> holds here; a number
  is kept as its text. The errors are those of \<^verbatim>\<open>encoding/json\<close> and of the reader under it.
\<close>

datatype json =
    JNull
  | JBool bool
  | JNumber string
  | JString string
  | JArray "json list"
  | JObject "(string \<times> json) list"

datatype go_error =
    SyntaxError string
  | UnmarshalTypeError string
  | ReadError string
  | UnsupportedValueError string

text \<open>
  What \<^verbatim>\<open>decoder.Decode\<close> meets in the response body, one entry per call: a complete JSON
  value, or a fault (text that is not JSON, or a read that fails mid-stream). The end of the list
  is \<^verbatim>\<open>io.EOF\<close>.
\<close>

datatype body_elem = Elem json | Fault go_error

text \<open>
  A Go map value is \<^verbatim>\<open>nil\<close> or a map; \<open>None\<close> is \<^verbatim>\<open>nil\<close>. A map
  \<^verbatim>\<open>map[string]interface{}\<close> is an association list read through \<^term>\<open>map_of\<close>, and a store
  \<^verbatim>\<open>props[k] = v\<close> is \<^term>\<open>AList.update\<close>.
\<close>

type_synonym props = "(string \<times> json) list option"

record JSONEvent =
  event :: string
  properties :: props

text \<open>
  \<^verbatim>\<open>var ev JSONEvent; decoder.Decode(&ev)\<close>. Both fields of \<^verbatim>\<open>JSONEvent\<close> are written in lower
  case, so neither is exported, and \<^verbatim>\<open>encoding/json\<close> reads and writes exported fields only:
  every key of a JSON object is skipped and \<open>ev\<close> keeps its zero value. The JSON value
  \<^verbatim>\<open>null\<close> leaves a struct as it is; any other JSON value cannot be stored in a struct.
\<close>

fun Decode :: "body_elem \<Rightarrow> go_error + JSONEvent" where
  "Decode (Fault e) = Inl e"
| "Decode (Elem (JObject kvs)) = Inr \<lparr>event = [], properties = None\<rparr>"
| "Decode (Elem JNull) = Inr \<lparr>event = [], properties = None\<rparr>"
| "Decode (Elem (JBool b)) = Inl (UnmarshalTypeError ''bool'')"
| "Decode (Elem (JNumber n)) = Inl (UnmarshalTypeError ''number'')"
| "Decode (Elem (JString s)) = Inl (UnmarshalTypeError ''string'')"
| "Decode (Elem (JArray xs)) = Inl (UnmarshalTypeError ''array'')"

subsection \<open>The pipeline of \<^verbatim>\<open>ExportDate\<close> and \<^verbatim>\<open>eventHandler\<close>\<close>

text \<open>
  \<^verbatim>\<open>ExportDate\<close> runs the decode loop in the caller's goroutine and starts one goroutine
  running \<^verbatim>\<open>eventHandler\<close> per key of \<^verbatim>\<open>eventChans\<close>. The goroutines meet on unbuffered
  channels, so the model is a state with one control point per goroutine and a step function
  per goroutine; a schedule (a list of goroutine choices) drives it.

  Control points of \<^verbatim>\<open>eventHandler\<close>: blocked in \<^verbatim>\<open>props, ok := <-jsonChan\<close>; holding the
  \<open>props\<close> it received; blocked in \<^verbatim>\<open>output <- buf.Bytes()\<close> with the bytes to send; returned.
\<close>

datatype handler =
    Receiving
  | Holding props
  | Emitting string
  | Exited

datatype panic =
    PanicString string
  | PanicError go_error
  | RuntimePanic string

text \<open>
  Control points of the loop of \<^verbatim>\<open>ExportDate\<close>: at \<^verbatim>\<open>decoder.Decode\<close> with what the decoder
  will still yield; at the channel send of a decoded event; returned; panicked. A panic of the
  loop unwinds into the caller of \<^verbatim>\<open>ExportDate\<close>, who may recover it, so the goroutines that
  were started can still move afterwards; a caller that does not recover it ends the process.
\<close>

datatype router =
    Decoding "(go_error + JSONEvent) list"
  | Sending JSONEvent "(go_error + JSONEvent) list"
  | Returned
  | Panicked panic

text \<open>
  \<open>eventChans\<close> is the map of the source; every channel in it has exactly one goroutine
  receiving from it, and the entry of a key holds that goroutine's control point. \<open>closed\<close>
  is set by the closing loop, which closes every channel of the map. \<open>out\<close> is what has been
  sent on \<^verbatim>\<open>outChan\<close>, oldest first, each chunk together with the key of the goroutine that
  sent it. \<open>crashed\<close> is set by a panic in a goroutine of \<^verbatim>\<open>eventHandler\<close>, which nothing
  recovers: the process ends.
\<close>

record pipeline =
  router :: router
  eventChans :: "string \<rightharpoonup> handler"
  closed :: bool
  out :: "(string \<times> string) list"
  crashed :: "panic option"

text \<open>
  \<^verbatim>\<open>json.NewEncoder(&buf).Encode(props)\<close> is a parameter \<open>enc\<close>: on a map it either fails, writing
  nothing, or writes bytes to the buffer. The source drops the error; \<^verbatim>\<open>buf.Bytes()\<close> is sent in
  both cases.
\<close>

type_synonym encoder = "(string \<times> json) list \<Rightarrow> go_error + string"

definition buf_Bytes :: "encoder \<Rightarrow> (string \<times> json) list \<Rightarrow> string" where
  "buf_Bytes enc p = (case enc p of Inl e \<Rightarrow> [] | Inr b \<Rightarrow> b)"

text \<open>\<^verbatim>\<open>props["product"] = m.Product; props["event"] = event\<close>\<close>

definition enrich :: "Mixpanel \<Rightarrow> string \<Rightarrow> (string \<times> json) list \<Rightarrow> (string \<times> json) list" where
  "enrich m ev p = AList.update ''event'' (JString ev) (AList.update ''product'' (JString (Product m)) p)"

text \<open>One step of the goroutine \<^verbatim>\<open>eventHandler(event, eventChans[event], outChan)\<close>;
  \<open>None\<close> when it cannot move (it is blocked, or it has returned, or it never started).\<close>

definition eventHandler_step :: "Mixpanel \<Rightarrow> encoder \<Rightarrow> string \<Rightarrow> pipeline \<Rightarrow> pipeline option" where
  "eventHandler_step m enc ev s =
     (case eventChans s ev of
        None \<Rightarrow> None
      | Some Receiving \<Rightarrow>
          if closed s then Some (s\<lparr>eventChans := (eventChans s)(ev \<mapsto> Exited)\<rparr>) else None
      | Some (Holding None) \<Rightarrow>
          Some (s\<lparr>crashed := Some (RuntimePanic ''assignment to entry in nil map'')\<rparr>)
      | Some (Holding (Some p)) \<Rightarrow>
          Some (s\<lparr>eventChans := (eventChans s)(ev \<mapsto> Emitting (buf_Bytes enc (enrich m ev p)))\<rparr>)
      | Some (Emitting b) \<Rightarrow>
          Some (s\<lparr>out := out s @ [(ev, b)], eventChans := (eventChans s)(ev \<mapsto> Receiving)\<rparr>)
      | Some Exited \<Rightarrow> None)"

text \<open>
  One step of the loop of \<^verbatim>\<open>ExportDate\<close>. At \<^verbatim>\<open>io.EOF\<close> the loop ends, every channel is closed
  and the function returns. A send on an unbuffered channel completes only when the receiver
  is at its receive; the channels are closed only after the loop, so the loop never sends on a
  closed channel.
\<close>

definition router_step :: "pipeline \<Rightarrow> pipeline option" where
  "router_step s =
     (case router s of
        Decoding [] \<Rightarrow> Some (s\<lparr>router := Returned, closed := True\<rparr>)
      | Decoding (Inl e # rest) \<Rightarrow> Some (s\<lparr>router := Panicked (PanicError e)\<rparr>)
      | Decoding (Inr ev # rest) \<Rightarrow>
          (case eventChans s (event ev) of
             Some h \<Rightarrow> Some (s\<lparr>router := Sending ev rest\<rparr>)
           | None \<Rightarrow>
               Some (s\<lparr>router := Sending ev rest,
                       eventChans := (eventChans s)(event ev \<mapsto> Receiving)\<rparr>))
      | Sending ev rest \<Rightarrow>
          (case eventChans s (event ev) of
             Some Receiving \<Rightarrow>
               Some (s\<lparr>router := Decoding rest,
                       eventChans := (eventChans s)(event ev \<mapsto> Holding (properties ev))\<rparr>)
           | _ \<Rightarrow> None)
      | Returned \<Rightarrow> None
      | Panicked p \<Rightarrow> None)"

datatype goroutine = Router | Worker string

definition step :: "Mixpanel \<Rightarrow> encoder \<Rightarrow> goroutine \<Rightarrow> pipeline \<Rightarrow> pipeline option" where
  "step m enc g s =
     (if crashed s \<noteq> None then None
      else case g of Router \<Rightarrow> router_step s | Worker ev \<Rightarrow> eventHandler_step m enc ev s)"

text \<open>A schedule picks the goroutine to move next; a pick that cannot move changes nothing.\<close>

definition exec :: "Mixpanel \<Rightarrow> encoder \<Rightarrow> pipeline \<Rightarrow> goroutine \<Rightarrow> pipeline" where
  "exec m enc s g = (case step m enc g s of None \<Rightarrow> s | Some s' \<Rightarrow> s')"

definition run :: "Mixpanel \<Rightarrow> encoder \<Rightarrow> goroutine list \<Rightarrow> pipeline \<Rightarrow> pipeline" where
  "run m enc sched s = foldl (exec m enc) s sched"

text \<open>The pipeline as the loop starts, over what the decoder will yield.\<close>

definition pipeline_start :: "(go_error + JSONEvent) list \<Rightarrow> pipeline" where
  "pipeline_start evs =
     \<lparr>router = Decoding evs, eventChans = Map.empty, closed = False, out = [], crashed = None\<rparr>"

text \<open>
  \<^verbatim>\<open>ExportDate\<close> up to the loop: the request is built and sent; \<open>get\<close> is \<^verbatim>\<open>http.Get\<close>, which
  gives an error or the response body. On an error the function panics with a fixed string.
\<close>

definition ExportDate ::
  "Mixpanel \<Rightarrow> 64 word \<Rightarrow> (string \<Rightarrow> go_error + body_elem list) \<Rightarrow> Date \<Rightarrow> Values option \<Rightarrow> pipeline" where
  "ExportDate m now get date moreArgs =
     (case get (ExportDate_url m now date moreArgs) of
        Inl err \<Rightarrow> (pipeline_start []) \<lparr>router := Panicked (PanicString ''XXX handle this. FAILED'')\<rparr>
      | Inr body \<Rightarrow> pipeline_start (map Decode body))"

text \<open>The chunks on \<^verbatim>\<open>outChan\<close> that the goroutine of one key sent, oldest first.\<close>

definition emitted :: "string \<Rightarrow> pipeline \<Rightarrow> string list" where
  "emitted ev s = map snd (filter (\<lambda>kb. fst kb = ev) (out s))"

text \<open>
  \<^verbatim>\<open>eventHandler\<close> as a function of what arrives on its channel: the chunks it sends, in order.
  It stops at a \<^verbatim>\<open>nil\<close> map, where the store into the map panics.
\<close>

fun eventHandler :: "Mixpanel \<Rightarrow> encoder \<Rightarrow> string \<Rightarrow> props list \<Rightarrow> string list" where
  "eventHandler m enc ev [] = []"
| "eventHandler m enc ev (None # ps) = []"
| "eventHandler m enc ev (Some p # ps) = buf_Bytes enc (enrich m ev p) # eventHandler m enc ev ps"

text \<open>What the loop of \<^verbatim>\<open>ExportDate\<close> sends to the channel of one key, in order, when the
  decoder yields \<open>evs\<close>: the loop ends at the first decode error.\<close>

fun dispatched :: "string \<Rightarrow> (go_error + JSONEvent) list \<Rightarrow> props list" where
  "dispatched k [] = []"
| "dispatched k (Inl e # rest) = []"
| "dispatched k (Inr ev # rest) =
     (if event ev = k then properties ev # dispatched k rest else dispatched k rest)"

subsection \<open>What a key's goroutine has still to send\<close>

text \<open>
  Bookkeeping for the proofs: what the loop will still send to the channel of \<open>k\<close>, and
  the chunks that the goroutine of \<open>k\<close> will still put on \<^verbatim>\<open>outChan\<close> if it runs on, from
  what it holds and from what the loop will still send it.
\<close>

definition upcoming :: "string \<Rightarrow> router \<Rightarrow> props list" where
  "upcoming k r =
     (case r of Decoding evs \<Rightarrow> dispatched k evs
              | Sending ev rest \<Rightarrow> dispatched k (Inr ev # rest)
              | Returned \<Rightarrow> []
              | Panicked p \<Rightarrow> [])"

fun unsent :: "Mixpanel \<Rightarrow> encoder \<Rightarrow> string \<Rightarrow> handler option \<Rightarrow> props list \<Rightarrow> string list" where
  "unsent m enc k (Some (Holding p)) todo = eventHandler m enc k (p # todo)"
| "unsent m enc k (Some (Emitting b)) todo = b # eventHandler m enc k todo"
| "unsent m enc k (Some Receiving) todo = eventHandler m enc k todo"
| "unsent m enc k (Some Exited) todo = eventHandler m enc k todo"
| "unsent m enc k None todo = eventHandler m enc k todo"

definition backlog :: "Mixpanel \<Rightarrow> encoder \<Rightarrow> string \<Rightarrow> pipeline \<Rightarrow> string list" where
  "backlog m enc k s = unsent m enc k (eventChans s k) (upcoming k (router s))"

subsection \<open>What the decoder of the source can yield\<close>

text \<open>
  Bookkeeping for the proofs: a decoder outcome that is an error or the zero value of
  \<^verbatim>\<open>JSONEvent\<close>; a goroutine that holds no map and no chunk; a loop whose remaining input is made
  of such outcomes. \<open>starved\<close> collects what holds at every point of a call of \<^verbatim>\<open>ExportDate\<close>.
\<close>

fun zero_valued :: "go_error + JSONEvent \<Rightarrow> bool" where
  "zero_valued (Inl e) = True"
| "zero_valued (Inr ev) = (event ev = [] \<and> properties ev = None)"

fun idle_handler :: "handler option \<Rightarrow> bool" where
  "idle_handler (Some (Holding (Some p))) = False"
| "idle_handler (Some (Emitting b)) = False"
| "idle_handler h = True"

fun zero_router :: "router \<Rightarrow> bool" where
  "zero_router (Decoding evs) = list_all zero_valued evs"
| "zero_router (Sending ev rest) = (event ev = [] \<and> properties ev = None \<and> list_all zero_valued rest)"
| "zero_router r = True"

definition starved :: "pipeline \<Rightarrow> bool" where
  "starved s =
     (out s = [] \<and> (\<forall>k. k \<noteq> [] \<longrightarrow> eventChans s k = None) \<and> idle_handler (eventChans s [])
      \<and> zero_router (router s))"

subsection \<open>The first decode error\<close>

text \<open>
  The first error that the decoder will yield, and the error that a control point of the loop
  has ahead of it or has panicked with.
\<close>

fun first_fault :: "(go_error + JSONEvent) list \<Rightarrow> go_error option" where
  "first_fault [] = None"
| "first_fault (Inl e # rest) = Some e"
| "first_fault (Inr ev # rest) = first_fault rest"

fun router_fault :: "router \<Rightarrow> go_error option" where
  "router_fault (Decoding evs) = first_fault evs"
| "router_fault (Sending ev rest) = first_fault rest"
| "router_fault Returned = None"
| "router_fault (Panicked (PanicError e)) = Some e"
| "router_fault (Panicked (PanicString msg)) = None"
| "router_fault (Panicked (RuntimePanic msg)) = None"

fun router_panic :: "router \<Rightarrow> panic option" where
  "router_panic (Panicked p) = Some p"
| "router_panic r = None"

subsection \<open>A schedule that serves every record\<close>

text \<open>
  For the statements about whole runs: the schedule that lets the loop decode and hand over one
  record and then lets the record's goroutine store, encode and send it, for every record in
  turn, and at the end lets the loop meet \<^verbatim>\<open>io.EOF\<close>; and the chunk that \<^verbatim>\<open>eventHandler\<close> makes
  of one decoded record, with the key of the goroutine that sends it.
\<close>

fun serve_all :: "JSONEvent list \<Rightarrow> goroutine list" where
  "serve_all [] = [Router]"
| "serve_all (ev # es) = [Router, Router, Worker (event ev), Worker (event ev)] @ serve_all es"

definition chunk_of :: "Mixpanel \<Rightarrow> encoder \<Rightarrow> JSONEvent \<Rightarrow> string \<times> string" where
  "chunk_of m enc ev = (event ev, buf_Bytes enc (enrich m (event ev) (the (properties ev))))"

subsection \<open>Example inputs\<close>

text \<open>
  Inputs for the closed examples below: a client, a date, two records of the response stream
  (one with an event name, one without), three decoded records, and two stand-ins for
  \<^verbatim>\<open>json.Encoder\<close>: one that writes the strings and numbers of a map as \<open>key=value;\<close> and one
  that fails.
\<close>

definition example_client :: Mixpanel where
  "example_client = New ''app'' ''k3y'' ''s3cret''"

definition example_date :: Date where
  "example_date = \<lparr>Year = 2013, Month = 2, Day = 7\<rparr>"

definition signup_u1 :: body_elem where
  "signup_u1 =
     Elem (JObject [(''event'', JString ''signup''),
                    (''properties'', JObject [(''distinct_id'', JString ''u1'')])])"

definition no_event_u1 :: body_elem where
  "no_event_u1 = Elem (JObject [(''properties'', JObject [(''distinct_id'', JString ''u1'')])])"

definition three_events :: "JSONEvent list" where
  "three_events =
     [\<lparr>event = ''signup'', properties = Some [(''distinct_id'', JString ''u1'')]\<rparr>,
      \<lparr>event = ''purchase'', properties = Some [(''distinct_id'', JString ''u1''), (''amount'', JNumber ''10'')]\<rparr>,
      \<lparr>event = ''signup'', properties = Some [(''distinct_id'', JString ''u2'')]\<rparr>]"

definition interleaved :: "goroutine list" where
  "interleaved =
     [Router, Router, Router, Router, Worker ''purchase'', Worker ''purchase'',
      Worker ''signup'', Worker ''signup'', Router, Router, Router,
      Worker ''signup'', Worker ''signup'', Worker ''signup'', Worker ''purchase'']"

definition example_encoder :: encoder where
  "example_encoder p =
     Inr (concat (map (\<lambda>kv. fst kv @ ''='' @ (case snd kv of JString x \<Rightarrow> x | JNumber x \<Rightarrow> x | _ \<Rightarrow> ''?'') @ '';'') p))"

definition failing_encoder :: "string \<Rightarrow> encoder" where
  "failing_encoder why p = Inl (UnsupportedValueError why)"

section \<open>Properties\<close>

subsection \<open>Order within one event type\<close>

text \<open>
  Every step of every goroutine leaves unchanged, for each key, the chunks already sent by the
  key's goroutine followed by those it has still to send.
\<close>

lemma router_step_conserves:
  assumes "router_step s = Some s'"
  shows "emitted k s' @ backlog m enc k s' = emitted k s @ backlog m enc k s"
proof (cases "router s")
  case (Decoding evs)
  show ?thesis
  proof (cases evs)
    case Nil
    with Decoding assms show ?thesis
      by (auto simp: router_step_def emitted_def backlog_def upcoming_def)
  next
    case (Cons x rest)
    show ?thesis
    proof (cases x)
      case (Inl e)
      with Decoding Cons assms show ?thesis
        by (auto simp: router_step_def emitted_def backlog_def upcoming_def)
    next
      case (Inr ev)
      with Decoding Cons assms show ?thesis
        by (cases "eventChans s (event ev)")
           (auto simp: router_step_def emitted_def backlog_def upcoming_def)
    qed
  qed
next
  case (Sending ev rest)
  with assms obtain h where h: "eventChans s (event ev) = Some h"
    by (cases "eventChans s (event ev)") (auto simp: router_step_def)
  with Sending assms have r: "h = Receiving"
    by (cases h) (auto simp: router_step_def)
  with h Sending assms
  have s': "s' = s\<lparr>router := Decoding rest,
                   eventChans := (eventChans s)(event ev \<mapsto> Holding (properties ev))\<rparr>"
    by (auto simp: router_step_def)
  show ?thesis
    using h r Sending unfolding s'
    by (cases "event ev = k") (auto simp: emitted_def backlog_def upcoming_def)
next
  case Returned
  with assms show ?thesis by (simp add: router_step_def)
next
  case (Panicked p)
  with assms show ?thesis by (simp add: router_step_def)
qed

lemma eventHandler_step_conserves:
  assumes "eventHandler_step m enc ev s = Some s'"
  shows "emitted k s' @ backlog m enc k s' = emitted k s @ backlog m enc k s"
proof -
  from assms obtain h where h: "eventChans s ev = Some h"
    by (cases "eventChans s ev") (auto simp: eventHandler_step_def)
  show ?thesis
  proof (cases h)
    case Receiving
    with h assms show ?thesis
      by (auto simp: eventHandler_step_def emitted_def backlog_def split: if_splits)
  next
    case (Holding p)
    with h assms show ?thesis
      by (cases p; cases "ev = k") (auto simp: eventHandler_step_def emitted_def backlog_def)
  next
    case (Emitting b)
    with h assms show ?thesis
      by (cases "ev = k") (auto simp: eventHandler_step_def emitted_def backlog_def)
  next
    case Exited
    with h assms show ?thesis by (simp add: eventHandler_step_def)
  qed
qed

lemma step_conserves:
  "step m enc g s = Some s' \<Longrightarrow> emitted k s' @ backlog m enc k s' = emitted k s @ backlog m enc k s"
  by (cases g) (auto simp: step_def router_step_conserves eventHandler_step_conserves split: if_splits)

lemma exec_conserves:
  "emitted k (exec m enc s g) @ backlog m enc k (exec m enc s g) = emitted k s @ backlog m enc k s"
  by (simp add: exec_def step_conserves split: option.splits)

lemma run_conserves:
  "emitted k (run m enc sched s) @ backlog m enc k (run m enc sched s) = emitted k s @ backlog m enc k s"
  unfolding run_def
  by (induction sched arbitrary: s) (simp_all add: exec_conserves)

lemma run_pipeline_start:
  "emitted k (run m enc sched (pipeline_start evs)) @ backlog m enc k (run m enc sched (pipeline_start evs))
     = eventHandler m enc k (dispatched k evs)"
  by (simp add: run_conserves) (simp add: emitted_def backlog_def upcoming_def pipeline_start_def)

lemma emitted_prefix:
  "prefix (emitted k (run m enc sched (pipeline_start evs))) (eventHandler m enc k (dispatched k evs))"
  by (metis run_pipeline_start prefixI)

lemma dispatched_Inr: "dispatched k (map Inr es) = map properties (filter (\<lambda>ev. event ev = k) es)"
  by (induction es) simp_all

lemma dispatched_append: "dispatched k (map Inr es @ Inl e # rest) = dispatched k (map Inr es)"
  by (induction es) simp_all

text \<open>
  Once the loop has returned and the goroutine of a key is not in the middle of a record, all of
  the key's records have been sent: none was dropped and none was sent twice.
\<close>

lemma drained_emits_all:
  assumes "router (run m enc sched (pipeline_start evs)) = Returned"
    and "eventChans (run m enc sched (pipeline_start evs)) k \<in> {None, Some Exited, Some Receiving}"
  shows "emitted k (run m enc sched (pipeline_start evs)) = eventHandler m enc k (dispatched k evs)"
proof -
  have "backlog m enc k (run m enc sched (pipeline_start evs)) = []"
    using assms by (auto simp: backlog_def upcoming_def)
  with run_pipeline_start [of k m enc sched evs] show ?thesis by simp
qed

text \<open>
  Claim C3. For every sequence that the decoder yields and every schedule, the chunks on
  \<^verbatim>\<open>outChan\<close> that carry one event type \<open>k\<close> are an initial part of what \<^verbatim>\<open>eventHandler\<close>
  makes, in order, of the properties of the records of type \<open>k\<close> taken in their order in
  the stream: records of one event type leave in the order in which they arrived. Nothing is
  said about the order between two event types.
\<close>

theorem C3_order_within_event_type:
  "prefix (emitted k (run m enc sched (pipeline_start evs))) (eventHandler m enc k (dispatched k evs))
   \<and> dispatched k (map Inr es) = map properties (filter (\<lambda>ev. event ev = k) es)"
  by (simp add: emitted_prefix dispatched_Inr)

subsection \<open>What \<^verbatim>\<open>ExportDate\<close> can reach\<close>

lemma zero_valued_Decode: "zero_valued (Decode x)"
  by (induction x rule: Decode.induct) simp_all

lemma starved_ExportDate: "starved (ExportDate m now get date moreArgs)"
  by (cases "get (ExportDate_url m now date moreArgs)")
     (simp_all add: ExportDate_def pipeline_start_def starved_def list_all_iff zero_valued_Decode)

lemma starved_router_step:
  assumes "starved s" and "router_step s = Some s'"
  shows "starved s'"
proof (cases "router s")
  case (Decoding evs)
  show ?thesis
  proof (cases evs)
    case Nil
    with Decoding assms show ?thesis
      by (auto simp: router_step_def starved_def)
  next
    case (Cons x rest)
    show ?thesis
    proof (cases x)
      case (Inl e)
      with Decoding Cons assms show ?thesis
        by (auto simp: router_step_def starved_def)
    next
      case (Inr ev)
      with Decoding Cons assms show ?thesis
        by (cases "eventChans s (event ev)") (auto simp: router_step_def starved_def)
    qed
  qed
next
  case (Sending ev rest)
  with assms obtain h where h: "eventChans s (event ev) = Some h"
    by (cases "eventChans s (event ev)") (auto simp: router_step_def)
  with Sending assms have "h = Receiving"
    by (cases h) (auto simp: router_step_def)
  with h Sending assms show ?thesis
    by (auto simp: router_step_def starved_def)
next
  case Returned
  with assms show ?thesis by (simp add: router_step_def)
next
  case (Panicked p)
  with assms show ?thesis by (simp add: router_step_def)
qed

lemma starved_eventHandler_step:
  assumes "starved s" and "eventHandler_step m enc ev s = Some s'"
  shows "starved s'"
proof -
  from assms obtain h where h: "eventChans s ev = Some h"
    by (cases "eventChans s ev") (auto simp: eventHandler_step_def)
  with assms have ev: "ev = []"
    by (cases "ev = []") (auto simp: starved_def)
  show ?thesis
  proof (cases h)
    case Receiving
    with h ev assms show ?thesis
      by (auto simp: eventHandler_step_def starved_def split: if_splits)
  next
    case (Holding p)
    with h ev assms show ?thesis
      by (cases p) (auto simp: eventHandler_step_def starved_def)
  next
    case (Emitting b)
    with h ev assms show ?thesis
      by (auto simp: eventHandler_step_def starved_def)
  next
    case Exited
    with h assms show ?thesis by (simp add: eventHandler_step_def)
  qed
qed

lemma starved_exec:
  assumes "starved s"
  shows "starved (exec m enc s g)"
proof (cases "step m enc g s")
  case None
  with assms show ?thesis by (simp add: exec_def)
next
  case (Some s')
  then have "starved s'"
    using assms
    by (cases g)
       (auto simp: step_def split: if_splits
             intro: starved_router_step starved_eventHandler_step)
  with Some show ?thesis by (simp add: exec_def)
qed

lemma starved_run: "starved s \<Longrightarrow> starved (run m enc sched s)"
  unfolding run_def
  by (induction sched arbitrary: s) (simp_all add: starved_exec)

text \<open>
  Whatever the response and the schedule, a call of \<^verbatim>\<open>ExportDate\<close> sends nothing on
  \<^verbatim>\<open>outChan\<close>, and \<^verbatim>\<open>eventChans\<close> has no key but the empty string.
\<close>

lemma ExportDate_never_emits: "out (run m enc sched (ExportDate m now get date moreArgs)) = []"
  using starved_run [OF starved_ExportDate] by (simp add: starved_def)

lemma ExportDate_one_key:
  "dom (eventChans (run m enc sched (ExportDate m now get date moreArgs))) \<subseteq> {[]}"
  using starved_run [OF starved_ExportDate, of m enc sched m now get date moreArgs]
  by (auto simp: starved_def)

subsection \<open>Every record once\<close>

lemma run_append: "run m enc (a @ b) s = run m enc b (run m enc a s)"
  by (simp add: run_def)

lemma eventHandler_Some:
  "list_all (\<lambda>p. p \<noteq> None) ps \<Longrightarrow>
   eventHandler m enc k ps = map (\<lambda>p. buf_Bytes enc (enrich m k (the p))) ps"
  by (induction ps) auto

lemma length_by_key:
  assumes "finite K" and "f ` set xs \<subseteq> K"
  shows "(\<Sum>k\<in>K. length (filter (\<lambda>x. f x = k) xs)) = length xs"
  using assms(2)
proof (induction xs)
  case Nil
  show ?case by simp
next
  case (Cons x xs)
  then have fx: "f x \<in> K" and sub: "f ` set xs \<subseteq> K" by auto
  have "(\<Sum>k\<in>K. length (filter (\<lambda>y. f y = k) (x # xs)))
        = (\<Sum>k\<in>K. (if f x = k then 1 else 0) + length (filter (\<lambda>y. f y = k) xs))"
    by (intro sum.cong) auto
  also have "\<dots> = (\<Sum>k\<in>K. if f x = k then 1 else 0) + (\<Sum>k\<in>K. length (filter (\<lambda>y. f y = k) xs))"
    by (simp add: sum.distrib)
  also have "(\<Sum>k\<in>K. if f x = k then 1 else 0) = (1::nat)"
    using assms(1) fx by simp
  finally show ?case using Cons.IH [OF sub] by simp
qed

lemma serve_one:
  assumes r: "router s = Decoding (Inr ev # rest)" and c: "crashed s = None"
    and p: "properties ev = Some p"
    and h: "eventChans s (event ev) \<in> {None, Some Receiving}"
  shows "run m enc [Router, Router, Worker (event ev), Worker (event ev)] s
         = s\<lparr>router := Decoding rest, eventChans := (eventChans s)(event ev \<mapsto> Receiving),
              out := out s @ [chunk_of m enc ev]\<rparr>"
proof -
  let ?k = "event ev"
  let ?s1 = "s\<lparr>router := Sending ev rest, eventChans := (eventChans s)(?k \<mapsto> Receiving)\<rparr>"
  let ?s2 = "?s1\<lparr>router := Decoding rest, eventChans := (eventChans ?s1)(?k \<mapsto> Holding (Some p))\<rparr>"
  let ?s3 = "?s2\<lparr>eventChans := (eventChans ?s2)(?k \<mapsto> Emitting (buf_Bytes enc (enrich m ?k p)))\<rparr>"
  let ?s4 = "?s3\<lparr>out := out ?s3 @ [(?k, buf_Bytes enc (enrich m ?k p))],
                  eventChans := (eventChans ?s3)(?k \<mapsto> Receiving)\<rparr>"
  have e1: "exec m enc s Router = ?s1"
  proof (cases "eventChans s ?k")
    case None
    with r c show ?thesis by (simp add: exec_def step_def router_step_def)
  next
    case (Some x)
    with h have x: "eventChans s ?k = Some Receiving" by simp
    then have "(eventChans s)(?k \<mapsto> Receiving) = eventChans s"
      by (simp add: fun_upd_idem)
    with r c x show ?thesis by (simp add: exec_def step_def router_step_def)
  qed
  have e2: "exec m enc ?s1 Router = ?s2"
    using c p by (simp add: exec_def step_def router_step_def)
  have e3: "exec m enc ?s2 (Worker ?k) = ?s3"
    using c by (simp add: exec_def step_def eventHandler_step_def)
  have e4: "exec m enc ?s3 (Worker ?k) = ?s4"
    using c by (simp add: exec_def step_def eventHandler_step_def)
  have "run m enc [Router, Router, Worker ?k, Worker ?k] s
        = exec m enc (exec m enc (exec m enc (exec m enc s Router) Router) (Worker ?k)) (Worker ?k)"
    by (simp add: run_def)
  also have "\<dots> = ?s4"
    by (simp only: e1 e2 e3 e4)
  also have "\<dots> = s\<lparr>router := Decoding rest, eventChans := (eventChans s)(?k \<mapsto> Receiving),
              out := out s @ [chunk_of m enc ev]\<rparr>"
    using p by (simp add: chunk_of_def)
  finally show ?thesis .
qed

lemma serve_all_run:
  assumes "router s = Decoding (map Inr es)" and "crashed s = None"
    and "list_all (\<lambda>ev. properties ev \<noteq> None) es"
    and "\<forall>k. eventChans s k \<in> {None, Some Receiving}"
  shows "run m enc (serve_all es) s
         = s\<lparr>router := Returned, closed := True,
              eventChans := (\<lambda>k. if k \<in> event ` set es then Some Receiving else eventChans s k),
              out := out s @ map (chunk_of m enc) es\<rparr>"
  using assms
proof (induction es arbitrary: s)
  case Nil
  then show ?case
    by (simp add: run_def exec_def step_def router_step_def)
next
  case (Cons ev es)
  from Cons.prems obtain p where p: "properties ev = Some p" by auto
  let ?s = "s\<lparr>router := Decoding (map Inr es), eventChans := (eventChans s)(event ev \<mapsto> Receiving),
              out := out s @ [chunk_of m enc ev]\<rparr>"
  have one: "run m enc [Router, Router, Worker (event ev), Worker (event ev)] s = ?s"
    using Cons.prems p by (intro serve_one [where p = p]) auto
  have rest: "run m enc (serve_all es) ?s
        = ?s\<lparr>router := Returned, closed := True,
              eventChans := (\<lambda>k. if k \<in> event ` set es then Some Receiving else eventChans ?s k),
              out := out ?s @ map (chunk_of m enc) es\<rparr>"
    using Cons.prems by (intro Cons.IH) auto
  have "run m enc (serve_all (ev # es)) s
        = run m enc (serve_all es) (run m enc [Router, Router, Worker (event ev), Worker (event ev)] s)"
    by (simp only: serve_all.simps run_append)
  also have "\<dots> = run m enc (serve_all es) ?s"
    by (simp only: one)
  also note rest
  also have "?s\<lparr>router := Returned, closed := True,
              eventChans := (\<lambda>k. if k \<in> event ` set es then Some Receiving else eventChans ?s k),
              out := out ?s @ map (chunk_of m enc) es\<rparr>
        = s\<lparr>router := Returned, closed := True,
            eventChans := (\<lambda>k. if k \<in> event ` set (ev # es) then Some Receiving else eventChans s k),
            out := out s @ map (chunk_of m enc) (ev # es)\<rparr>"
    by (simp add: fun_eq_iff)
  finally show ?case .
qed

lemma drain_run:
  assumes "crashed s = None" and "closed s"
    and "\<forall>k. eventChans s k \<in> {None, Some Receiving, Some Exited}"
  shows "run m enc (map Worker ks) s
         = s\<lparr>eventChans := (\<lambda>k. if k \<in> set ks \<and> eventChans s k \<noteq> None then Some Exited
                                  else eventChans s k)\<rparr>"
  using assms
proof (induction ks arbitrary: s)
  case Nil
  show ?case by (simp add: run_def)
next
  case (Cons k ks)
  let ?s = "exec m enc s (Worker k)"
  from Cons.prems have k: "eventChans s k \<in> {None, Some Receiving, Some Exited}" by blast
  then have s1: "?s = s\<lparr>eventChans := (\<lambda>k'. if k' = k \<and> eventChans s k \<noteq> None then Some Exited
                                  else eventChans s k')\<rparr>"
    using Cons.prems(1,2)
    by (auto simp: exec_def step_def eventHandler_step_def fun_eq_iff)
  have "run m enc (map Worker (k # ks)) s = run m enc (map Worker ks) ?s"
    by (simp add: run_def)
  also have "\<dots> = ?s\<lparr>eventChans := (\<lambda>k'. if k' \<in> set ks \<and> eventChans ?s k' \<noteq> None then Some Exited
                                  else eventChans ?s k')\<rparr>"
    using Cons.prems unfolding s1 by (intro Cons.IH) auto
  also have "\<dots> = s\<lparr>eventChans := (\<lambda>k'. if k' \<in> set (k # ks) \<and> eventChans s k' \<noteq> None then Some Exited
                                  else eventChans s k')\<rparr>"
  proof -
    have "(\<lambda>k'. if k' \<in> set ks \<and> eventChans ?s k' \<noteq> None then Some Exited else eventChans ?s k')
        = (\<lambda>k'. if k' \<in> set (k # ks) \<and> eventChans s k' \<noteq> None then Some Exited else eventChans s k')"
      unfolding s1 by (rule ext) auto
    then show ?thesis
      unfolding s1 by simp
  qed
  finally show ?case .
qed

lemma serve_and_drain:
  assumes "list_all (\<lambda>ev. properties ev \<noteq> None) es"
  shows "run m enc (serve_all es @ map Worker (map event es)) (pipeline_start (map Inr es))
         = \<lparr>router = Returned,
            eventChans = (\<lambda>k. if k \<in> event ` set es then Some Exited else None),
            closed = True, out = map (chunk_of m enc) es, crashed = None\<rparr>"
proof -
  let ?s = "pipeline_start (map Inr es)"
  let ?t = "?s\<lparr>router := Returned, closed := True,
              eventChans := (\<lambda>k. if k \<in> event ` set es then Some Receiving else eventChans ?s k),
              out := out ?s @ map (chunk_of m enc) es\<rparr>"
  have a: "run m enc (serve_all es) ?s = ?t"
    using assms by (intro serve_all_run) (simp_all add: pipeline_start_def)
  have b: "run m enc (map Worker (map event es)) ?t
        = ?t\<lparr>eventChans := (\<lambda>k. if k \<in> set (map event es) \<and> eventChans ?t k \<noteq> None then Some Exited
                                  else eventChans ?t k)\<rparr>"
    by (intro drain_run) (simp_all add: pipeline_start_def)
  show ?thesis
    unfolding run_append a b by (simp add: pipeline_start_def fun_eq_iff)
qed

lemma drained_counts:
  assumes ps: "list_all (\<lambda>ev. properties ev \<noteq> None) es"
    and ret: "router (run m enc sched (pipeline_start (map Inr es))) = Returned"
    and idle: "\<forall>k. eventChans (run m enc sched (pipeline_start (map Inr es))) k \<in> {None, Some Exited}"
  shows "length (out (run m enc sched (pipeline_start (map Inr es)))) = length es
       \<and> (\<forall>k. emitted k (run m enc sched (pipeline_start (map Inr es)))
               = map snd (filter (\<lambda>c. fst c = k) (map (chunk_of m enc) es)))"
proof -
  let ?s = "run m enc sched (pipeline_start (map Inr es))"
  have em: "emitted k ?s = map snd (filter (\<lambda>c. fst c = k) (map (chunk_of m enc) es))" for k
  proof -
    have "backlog m enc k ?s = []"
      using ret idle [rule_format, of k] by (auto simp: backlog_def upcoming_def)
    with run_pipeline_start [of k m enc sched "map Inr es"]
    have "emitted k ?s = eventHandler m enc k (map properties (filter (\<lambda>ev. event ev = k) es))"
      by (simp add: dispatched_Inr)
    also have "\<dots> = map (\<lambda>p. buf_Bytes enc (enrich m k (the p))) (map properties (filter (\<lambda>ev. event ev = k) es))"
      using ps by (intro eventHandler_Some) (auto simp: list_all_iff)
    also have "\<dots> = map snd (filter (\<lambda>c. fst c = k) (map (chunk_of m enc) es))"
      by (induction es) (auto simp: chunk_of_def)
    finally show ?thesis .
  qed
  define K where "K = event ` set es"
  have fin: "finite K" by (simp add: K_def)
  have tags: "fst ` set (out ?s) \<subseteq> K"
  proof
    fix k assume "k \<in> fst ` set (out ?s)"
    then have "emitted k ?s \<noteq> []"
      by (auto simp: emitted_def filter_empty_conv)
    with em [of k] show "k \<in> K"
      by (auto simp: K_def filter_empty_conv chunk_of_def)
  qed
  have "length (out ?s) = (\<Sum>k\<in>K. length (filter (\<lambda>c. fst c = k) (out ?s)))"
    using length_by_key [OF fin tags] by simp
  also have "\<dots> = (\<Sum>k\<in>K. length (emitted k ?s))"
    by (simp add: emitted_def)
  also have "\<dots> = (\<Sum>k\<in>K. length (filter (\<lambda>ev. event ev = k) es))"
  proof (intro sum.cong refl)
    fix k
    have "length (filter (\<lambda>c. fst c = k) (map (chunk_of m enc) es)) = length (filter (\<lambda>ev. event ev = k) es)"
      by (induction es) (auto simp: chunk_of_def)
    then show "length (emitted k ?s) = length (filter (\<lambda>ev. event ev = k) es)"
      by (simp add: em)
  qed
  also have "\<dots> = length es"
    by (intro length_by_key [OF fin]) (simp add: K_def)
  finally show ?thesis using em by simp
qed

text \<open>
  Claim C1, as stated, fails. On a stream of one well-formed record, there is a schedule on which
  \<^verbatim>\<open>ExportDate\<close> has returned and nothing has been sent on \<^verbatim>\<open>outChan\<close>; the same holds of the
  loop when the decoder yields one record with a map of properties, whose goroutine still holds
  the record when \<^verbatim>\<open>ExportDate\<close> returns.
\<close>

theorem C1_counterexample:
  "router (run example_client example_encoder [Router, Router, Router]
      (ExportDate example_client 1700000000 (\<lambda>url. Inr [signup_u1]) example_date None)) = Returned
   \<and> out (run example_client example_encoder [Router, Router, Router]
      (ExportDate example_client 1700000000 (\<lambda>url. Inr [signup_u1]) example_date None)) = []
   \<and> run example_client example_encoder [Router, Router, Router]
      (pipeline_start [Inr \<lparr>event = ''signup'', properties = Some [(''distinct_id'', JString ''u1'')]\<rparr>])
     = \<lparr>router = Returned,
        eventChans = [''signup'' \<mapsto> Holding (Some [(''distinct_id'', JString ''u1'')])],
        closed = True, out = [], crashed = None\<rparr>"
  by (simp add: ExportDate_def pipeline_start_def run_def exec_def step_def router_step_def
        signup_u1_def)

text \<open>
  Claim C1, amended. Let the decoder yield \<open>N\<close> records, each with a map of properties,
  and no error. On the schedule that serves every record in turn, \<^verbatim>\<open>ExportDate\<close> returns, every
  goroutine it started returns, and \<^verbatim>\<open>outChan\<close> has received the \<open>N\<close> enriched records in
  the order of the stream. On every schedule, once \<^verbatim>\<open>ExportDate\<close> has returned and every
  goroutine it started has returned, exactly \<open>N\<close> chunks have been sent, and those sent
  for an event type are the enriched records of that type, each once, in the order of the
  stream. (\<^verbatim>\<open>ExportDate\<close> itself returns as soon as it has closed the channels.)
\<close>

theorem C1_every_record_once:
  assumes "list_all (\<lambda>ev. properties ev \<noteq> None) es"
  shows "run m enc (serve_all es @ map Worker (map event es)) (pipeline_start (map Inr es))
           = \<lparr>router = Returned,
              eventChans = (\<lambda>k. if k \<in> event ` set es then Some Exited else None),
              closed = True, out = map (chunk_of m enc) es, crashed = None\<rparr>
         \<and> (router (run m enc sched (pipeline_start (map Inr es))) = Returned
            \<and> (\<forall>k. eventChans (run m enc sched (pipeline_start (map Inr es))) k \<in> {None, Some Exited})
            \<longrightarrow> length (out (run m enc sched (pipeline_start (map Inr es)))) = length es
              \<and> (\<forall>k. emitted k (run m enc sched (pipeline_start (map Inr es)))
                      = map snd (filter (\<lambda>c. fst c = k) (map (chunk_of m enc) es))))"
  using serve_and_drain [OF assms] drained_counts [OF assms] by blast

theorem C1_every_record_once_witness:
  "out (run example_client example_encoder (serve_all three_events @ map Worker (map event three_events))
        (pipeline_start (map Inr three_events)))
     = [(''signup'', ''distinct_id=u1;product=app;event=signup;''),
        (''purchase'', ''distinct_id=u1;amount=10;product=app;event=purchase;''),
        (''signup'', ''distinct_id=u2;product=app;event=signup;'')]
   \<and> out (run example_client example_encoder interleaved (pipeline_start (map Inr three_events)))
     = [(''purchase'', ''distinct_id=u1;amount=10;product=app;event=purchase;''),
        (''signup'', ''distinct_id=u1;product=app;event=signup;''),
        (''signup'', ''distinct_id=u2;product=app;event=signup;'')]
   \<and> length (out (run example_client example_encoder interleaved (pipeline_start (map Inr three_events)))) = 3
   \<and> emitted ''signup'' (run example_client example_encoder interleaved (pipeline_start (map Inr three_events)))
     = [''distinct_id=u1;product=app;event=signup;'', ''distinct_id=u2;product=app;event=signup;'']"
proof -
  have s: "run example_client example_encoder interleaved (pipeline_start (map Inr three_events))
     = \<lparr>router = Returned,
        eventChans = [''signup'' \<mapsto> Exited, ''purchase'' \<mapsto> Exited],
        closed = True,
        out = [(''purchase'', ''distinct_id=u1;amount=10;product=app;event=purchase;''),
               (''signup'', ''distinct_id=u1;product=app;event=signup;''),
               (''signup'', ''distinct_id=u2;product=app;event=signup;'')],
        crashed = None\<rparr>"
    by (simp add: interleaved_def three_events_def pipeline_start_def run_def exec_def step_def
          router_step_def eventHandler_step_def buf_Bytes_def enrich_def example_encoder_def
          example_client_def New_def NewWithURL_def fun_upd_twist)
  have c: "map (chunk_of example_client example_encoder) three_events
     = [(''signup'', ''distinct_id=u1;product=app;event=signup;''),
        (''purchase'', ''distinct_id=u1;amount=10;product=app;event=purchase;''),
        (''signup'', ''distinct_id=u2;product=app;event=signup;'')]"
    by (simp add: three_events_def chunk_of_def buf_Bytes_def enrich_def example_encoder_def
          example_client_def New_def NewWithURL_def)
  have p: "list_all (\<lambda>ev. properties ev \<noteq> None) three_events"
    by (simp add: three_events_def)
  note inst = C1_every_record_once [OF p, of example_client example_encoder interleaved]
  from inst have "out (run example_client example_encoder
        (serve_all three_events @ map Worker (map event three_events))
        (pipeline_start (map Inr three_events)))
      = map (chunk_of example_client example_encoder) three_events"
    by simp
  then have served: "out (run example_client example_encoder
        (serve_all three_events @ map Worker (map event three_events))
        (pipeline_start (map Inr three_events)))
     = [(''signup'', ''distinct_id=u1;product=app;event=signup;''),
        (''purchase'', ''distinct_id=u1;amount=10;product=app;event=purchase;''),
        (''signup'', ''distinct_id=u2;product=app;event=signup;'')]"
    by (simp only: c)
  have drained: "router (run example_client example_encoder interleaved
          (pipeline_start (map Inr three_events))) = Returned
      \<and> (\<forall>k. eventChans (run example_client example_encoder interleaved
          (pipeline_start (map Inr three_events))) k \<in> {None, Some Exited})"
    unfolding s by simp
  with inst have counted:
    "length (out (run example_client example_encoder interleaved
        (pipeline_start (map Inr three_events)))) = length three_events"
    "emitted ''signup'' (run example_client example_encoder interleaved
        (pipeline_start (map Inr three_events)))
      = map snd (filter (\<lambda>c. fst c = ''signup'')
          (map (chunk_of example_client example_encoder) three_events))"
    by blast+
  from counted(1) have three: "length (out (run example_client example_encoder interleaved
        (pipeline_start (map Inr three_events)))) = 3"
    by (simp add: three_events_def)
  from counted(2) have signups: "emitted ''signup'' (run example_client example_encoder interleaved
        (pipeline_start (map Inr three_events)))
      = [''distinct_id=u1;product=app;event=signup;'', ''distinct_id=u2;product=app;event=signup;'']"
    unfolding c by simp
  have order: "out (run example_client example_encoder interleaved (pipeline_start (map Inr three_events)))
     = [(''purchase'', ''distinct_id=u1;amount=10;product=app;event=purchase;''),
        (''signup'', ''distinct_id=u1;product=app;event=signup;''),
        (''signup'', ''distinct_id=u2;product=app;event=signup;'')]"
    unfolding s by simp
  from served order three signups show ?thesis by (simp only: simp_thms)
qed

subsection \<open>The fields that \<^verbatim>\<open>eventHandler\<close> stores\<close>

text \<open>The two stores of \<^verbatim>\<open>eventHandler\<close> replace what the map held under the two keys and leave
  every other key as it was.\<close>

lemma enrich_overwrites:
  "map_of (enrich m ev p) ''product'' = Some (JString (Product m))
   \<and> map_of (enrich m ev p) ''event'' = Some (JString ev)"
  by (simp add: enrich_def update_conv')

lemma enrich_keeps:
  "k \<noteq> ''product'' \<Longrightarrow> k \<noteq> ''event'' \<Longrightarrow> map_of (enrich m ev p) k = map_of p k"
  by (simp add: enrich_def update_conv')

text \<open>
  Claim C2 (the code departs from it). The claim: the record emitted for an input record
  carries the client's product and the event name that the record had in the stream. The code,
  on the record \<open>signup_u1\<close> whose event name is \<open>signup\<close>: decoding leaves the event
  name empty and the properties \<^verbatim>\<open>nil\<close>; no goroutine is started for \<open>signup\<close>, the
  goroutine of the empty name receives a \<^verbatim>\<open>nil\<close> map; and whatever the schedule, no chunk is
  sent for any event name.
\<close>

theorem C2_event_name_is_lost:
  "Decode signup_u1 = Inr \<lparr>event = [], properties = None\<rparr>
   \<and> eventChans (run m enc [Router, Router]
        (ExportDate m now (\<lambda>url. Inr [signup_u1]) date moreArgs)) ''signup'' = None
   \<and> eventChans (run m enc [Router, Router]
        (ExportDate m now (\<lambda>url. Inr [signup_u1]) date moreArgs)) [] = Some (Holding None)
   \<and> emitted ev (run m enc sched (ExportDate m now (\<lambda>url. Inr [signup_u1]) date moreArgs)) = []"
  by (simp add: emitted_def ExportDate_never_emits)
     (simp add: ExportDate_def pipeline_start_def run_def exec_def step_def router_step_def
        eventHandler_step_def signup_u1_def)

subsection \<open>The registry of \<^verbatim>\<open>ExportDate\<close>\<close>

text \<open>
  Claim C10. Every element of the response that decodes without an error decodes to the empty
  event name and \<^verbatim>\<open>nil\<close> properties; and at every point of every call of \<^verbatim>\<open>ExportDate\<close>
  (whatever the response and the schedule) \<^verbatim>\<open>eventChans\<close> has no key but the empty string, so
  at most one entry.
\<close>

theorem C10_single_empty_key:
  "(case Decode x of Inl e \<Rightarrow> True | Inr ev \<Rightarrow> event ev = [] \<and> properties ev = None)
   \<and> dom (eventChans (run m enc sched (ExportDate m now get date moreArgs))) \<subseteq> {[]}
   \<and> card (dom (eventChans (run m enc sched (ExportDate m now get date moreArgs)))) \<le> 1"
proof -
  have d: "dom (eventChans (run m enc sched (ExportDate m now get date moreArgs))) \<subseteq> {[]}"
    by (rule ExportDate_one_key)
  then have "card (dom (eventChans (run m enc sched (ExportDate m now get date moreArgs)))) \<le> card {[]::string}"
    by (intro card_mono) simp_all
  with d zero_valued_Decode [of x] show ?thesis
    by (cases "Decode x") simp_all
qed

subsection \<open>Faults of the stream\<close>

lemma router_step_fault:
  assumes "router_step s = Some s'"
  shows "router_fault (router s') = router_fault (router s)"
proof (cases "router s")
  case (Decoding evs)
  show ?thesis
  proof (cases evs)
    case Nil
    with Decoding assms show ?thesis by (auto simp: router_step_def)
  next
    case (Cons x rest)
    show ?thesis
    proof (cases x)
      case (Inl e)
      with Decoding Cons assms show ?thesis by (auto simp: router_step_def)
    next
      case (Inr ev)
      with Decoding Cons assms show ?thesis
        by (cases "eventChans s (event ev)") (auto simp: router_step_def)
    qed
  qed
next
  case (Sending ev rest)
  with assms obtain h where h: "eventChans s (event ev) = Some h"
    by (cases "eventChans s (event ev)") (auto simp: router_step_def)
  with Sending assms have "h = Receiving"
    by (cases h) (auto simp: router_step_def)
  with h Sending assms show ?thesis by (auto simp: router_step_def)
next
  case Returned
  with assms show ?thesis by (simp add: router_step_def)
next
  case (Panicked p)
  with assms show ?thesis by (simp add: router_step_def)
qed

lemma eventHandler_step_router:
  assumes "eventHandler_step m enc ev s = Some s'"
  shows "router s' = router s"
proof -
  from assms obtain h where h: "eventChans s ev = Some h"
    by (cases "eventChans s ev") (auto simp: eventHandler_step_def)
  with assms show ?thesis
    by (cases h) (auto simp: eventHandler_step_def split: if_splits option.splits)
qed

lemma exec_fault: "router_fault (router (exec m enc s g)) = router_fault (router s)"
proof (cases "step m enc g s")
  case None
  then show ?thesis by (simp add: exec_def)
next
  case (Some s')
  then have "router_fault (router s') = router_fault (router s)"
    by (cases g) (auto simp: step_def router_step_fault eventHandler_step_router split: if_splits)
  with Some show ?thesis by (simp add: exec_def)
qed

lemma run_fault: "router_fault (router (run m enc sched s)) = router_fault (router s)"
  unfolding run_def
  by (induction sched arbitrary: s) (simp_all add: exec_fault)

lemma first_fault_append: "first_fault (map Inr es @ Inl e # rest) = Some e"
  by (induction es) simp_all

lemma router_fault_cases:
  "router_fault r = Some e \<Longrightarrow> r \<noteq> Returned \<and> router_panic r \<in> {None, Some (PanicError e)}"
  by (induction r rule: router_fault.induct) auto

text \<open>
  Claim C6, as stated, fails. When \<^verbatim>\<open>http.Get\<close> fails, \<^verbatim>\<open>ExportDate\<close> returns no error: it
  panics, with a fixed string, so that two different transport errors leave the very same
  state; and when the first element of the stream is not JSON, it panics with the decoder's
  error.
\<close>

theorem C6_counterexample:
  "router (ExportDate example_client 1700000000 (\<lambda>url. Inl (ReadError ''connection refused''))
       example_date None)
     = Panicked (PanicString ''XXX handle this. FAILED'')
   \<and> ExportDate example_client 1700000000 (\<lambda>url. Inl (ReadError ''connection refused''))
       example_date None
     = ExportDate example_client 1700000000 (\<lambda>url. Inl (ReadError ''i/o timeout''))
       example_date None
   \<and> router (run example_client example_encoder [Router]
        (ExportDate example_client 1700000000
           (\<lambda>url. Inr [Fault (SyntaxError ''invalid character'')]) example_date None))
     = Panicked (PanicError (SyntaxError ''invalid character''))"
  by (simp add: ExportDate_def pipeline_start_def run_def exec_def step_def router_step_def)

text \<open>
  Claim C6, amended. When the transport call fails, nothing is ever sent on \<^verbatim>\<open>outChan\<close>. When
  the first thing the decoder yields is the error \<open>e\<close>, the loop panics with \<open>e\<close>
  at its first step. When the decoder yields the events \<open>es\<close> and then the error
  \<open>e\<close>, then on every schedule \<^verbatim>\<open>ExportDate\<close> never returns, the only panic of its loop
  is the one that carries \<open>e\<close>, and the chunks sent for a key are an initial part of what
  \<^verbatim>\<open>eventHandler\<close> makes of the key's records among \<open>es\<close>: nothing is sent for the
  element that failed to decode, nor for any element after it.
\<close>

theorem C6_decode_fault_panics:
  "out (run m enc sched (ExportDate m now (\<lambda>url. Inl err) date moreArgs)) = []
   \<and> router (run m enc [Router] (pipeline_start (Inl e # rest))) = Panicked (PanicError e)
   \<and> router (run m enc sched (pipeline_start (map Inr es @ Inl e # rest))) \<noteq> Returned
   \<and> router_panic (router (run m enc sched (pipeline_start (map Inr es @ Inl e # rest))))
       \<in> {None, Some (PanicError e)}
   \<and> prefix (emitted k (run m enc sched (pipeline_start (map Inr es @ Inl e # rest))))
        (eventHandler m enc k (map properties (filter (\<lambda>ev. event ev = k) es)))"
proof -
  let ?d = "pipeline_start (map Inr es @ Inl e # rest)"
  have "router_fault (router (run m enc sched ?d)) = Some e"
    by (simp add: run_fault pipeline_start_def first_fault_append)
  then have d: "router (run m enc sched ?d) \<noteq> Returned"
      "router_panic (router (run m enc sched ?d)) \<in> {None, Some (PanicError e)}"
    using router_fault_cases by blast+
  have p: "prefix (emitted k (run m enc sched ?d))
        (eventHandler m enc k (map properties (filter (\<lambda>ev. event ev = k) es)))"
    using emitted_prefix [of k m enc sched "map Inr es @ Inl e # rest"]
    by (simp add: dispatched_append dispatched_Inr)
  have f: "router (run m enc [Router] (pipeline_start (Inl e # rest))) = Panicked (PanicError e)"
    by (simp add: pipeline_start_def run_def exec_def step_def router_step_def)
  from d p f show ?thesis by (simp add: ExportDate_never_emits)
qed

subsection \<open>Records without an event name\<close>

text \<open>
  Claim C7, as stated, fails. On a stream of one record that has no event name, the loop starts
  the goroutine of the empty name and hands the record to it, and the goroutine's first step
  ends the process with a panic.
\<close>

theorem C7_counterexample:
  "eventChans (run example_client example_encoder [Router, Router]
      (ExportDate example_client 1700000000 (\<lambda>url. Inr [no_event_u1]) example_date None)) []
     = Some (Holding None)
   \<and> crashed (run example_client example_encoder [Router, Router, Worker []]
      (ExportDate example_client 1700000000 (\<lambda>url. Inr [no_event_u1]) example_date None))
     = Some (RuntimePanic ''assignment to entry in nil map'')"
  by (simp add: ExportDate_def pipeline_start_def run_def exec_def step_def router_step_def
        eventHandler_step_def no_event_u1_def)

text \<open>
  Claim C7, amended. A decoded record whose event name is empty is neither reported nor left
  out: the loop registers a goroutine under the empty string, hands the record's properties to
  it and goes on with the rest of the stream, with nothing sent on \<^verbatim>\<open>outChan\<close> for the
  hand-over; when the properties are a map, the goroutine sends the record, labelled with the
  empty event name, and waits for the next one.
\<close>

theorem C7_empty_event_is_dispatched:
  "run m enc [Router, Router] (pipeline_start (Inr \<lparr>event = [], properties = p\<rparr> # rest))
     = \<lparr>router = Decoding rest, eventChans = [[] \<mapsto> Holding p], closed = False, out = [],
        crashed = None\<rparr>
   \<and> run m enc [Router, Router, Worker [], Worker []]
        (pipeline_start (Inr \<lparr>event = [], properties = Some al\<rparr> # rest))
     = \<lparr>router = Decoding rest, eventChans = [[] \<mapsto> Receiving], closed = False,
        out = [([], buf_Bytes enc (enrich m [] al))], crashed = None\<rparr>"
  by (simp add: pipeline_start_def run_def exec_def step_def router_step_def eventHandler_step_def)

subsection \<open>A record that cannot be serialized\<close>

text \<open>
  Claim C8, as stated, fails. With an encoder that fails, the goroutine of \<open>signup\<close> sends
  an empty chunk for the record and goes back to its receive; the state it leaves is the same
  for two different errors, so the error is reported nowhere.
\<close>

theorem C8_counterexample:
  "run example_client (failing_encoder ''NaN'') [Router, Router, Worker ''signup'', Worker ''signup'']
      (pipeline_start [Inr \<lparr>event = ''signup'', properties = Some [(''distinct_id'', JString ''u1'')]\<rparr>])
     = \<lparr>router = Decoding [], eventChans = [''signup'' \<mapsto> Receiving], closed = False,
        out = [(''signup'', [])], crashed = None\<rparr>
   \<and> run example_client (failing_encoder ''NaN'') [Router, Router, Worker ''signup'', Worker ''signup'']
      (pipeline_start [Inr \<lparr>event = ''signup'', properties = Some [(''distinct_id'', JString ''u1'')]\<rparr>])
     = run example_client (failing_encoder ''+Inf'') [Router, Router, Worker ''signup'', Worker ''signup'']
      (pipeline_start [Inr \<lparr>event = ''signup'', properties = Some [(''distinct_id'', JString ''u1'')]\<rparr>])"
  by (simp add: pipeline_start_def run_def exec_def step_def router_step_def eventHandler_step_def
        buf_Bytes_def failing_encoder_def)

text \<open>
  Claim C8, amended. When the encoder fails on the record that a goroutine holds, the goroutine
  drops the error: its next two steps send an empty chunk on \<^verbatim>\<open>outChan\<close> and bring it back to
  its receive, and nothing else in the state changes; and \<^verbatim>\<open>eventHandler\<close> goes on with the
  records that follow on its channel.
\<close>

theorem C8_encode_failure_is_dropped:
  assumes "enc (enrich m k p) = Inl e"
    and "eventChans s k = Some (Holding (Some p))"
    and "crashed s = None"
  shows "run m enc [Worker k, Worker k] s
           = s\<lparr>out := out s @ [(k, [])], eventChans := (eventChans s)(k \<mapsto> Receiving)\<rparr>
         \<and> eventHandler m enc k (Some p # ps) = [] # eventHandler m enc k ps"
  using assms
  by (simp add: run_def exec_def step_def eventHandler_step_def buf_Bytes_def)

theorem C8_encode_failure_is_dropped_witness:
  "run example_client (failing_encoder ''NaN'') [Worker ''signup'', Worker ''signup'']
      \<lparr>router = Decoding [],
       eventChans = [''signup'' \<mapsto> Holding (Some [(''distinct_id'', JString ''u1'')])],
       closed = False, out = [], crashed = None\<rparr>
     = \<lparr>router = Decoding [], eventChans = [''signup'' \<mapsto> Receiving], closed = False,
        out = [(''signup'', [])], crashed = None\<rparr>
   \<and> eventHandler example_client (failing_encoder ''NaN'') ''signup''
        [Some [(''distinct_id'', JString ''u1'')], Some [(''distinct_id'', JString ''u2'')]]
      = [[], []]"
  using C8_encode_failure_is_dropped [of "failing_encoder ''NaN''" example_client "''signup''"
      "[(''distinct_id'', JString ''u1'')]" "UnsupportedValueError ''NaN''"
      "\<lparr>router = Decoding [],
        eventChans = [''signup'' \<mapsto> Holding (Some [(''distinct_id'', JString ''u1'')])],
        closed = False, out = [], crashed = None\<rparr>" "[Some [(''distinct_id'', JString ''u2'')]]"]
  by (simp add: failing_encoder_def buf_Bytes_def)

subsection \<open>The signature\<close>

lemma Values_Get_cong: "map_of a = map_of b \<Longrightarrow> Values_Get a k = Values_Get b k"
  by (simp add: Values_Get_def)

lemma sorted_keys_cong:
  assumes "distinct (map fst a)" and "distinct (map fst b)" and "map_of a = map_of b"
  shows "sort (map fst a) = sort (map fst b)"
proof -
  have "set (map fst a) = dom (map_of a)" "set (map fst b) = dom (map_of b)"
    by (simp_all add: dom_map_of_conv_image_fst)
  with assms(3) have "set (sort (map fst a)) = set (sort (map fst b))"
    by simp
  moreover have "distinct (sort (map fst a))" "distinct (sort (map fst b))"
    using assms(1,2) by simp_all
  ultimately show ?thesis
    by (intro sorted_distinct_set_unique) simp_all
qed

lemma Values_Encode_cong:
  assumes "distinct (map fst a)" and "distinct (map fst b)" and "map_of a = map_of b"
  shows "Values_Encode a = Values_Encode b"
  using sorted_keys_cong [OF assms] Values_Get_cong [OF assms(3)]
  by (simp add: Values_Encode_def)

text \<open>
  Claim C5. Two parameter mappings that are the same mapping, in whatever order the Go maps
  hold and iterate their keys, get the same signature under the same client, and the signed
  mappings are the same.
\<close>

theorem C5_signature_deterministic:
  assumes "distinct (map fst a)" and "distinct (map fst b)" and "map_of a = map_of b"
  shows "signature m a = signature m b
         \<and> map_of (addSignature m a) = map_of (addSignature m b)"
  using Values_Encode_cong [OF assms] assms(3)
  by (simp add: signature_def addSignature_def Values_Set_def update_conv')

theorem C5_signature_deterministic_witness:
  "signature example_client [(''format'', [''json'']), (''api_key'', [''k3y''])]
     = signature example_client [(''api_key'', [''k3y'']), (''format'', [''json''])]
   \<and> map_of (addSignature example_client [(''format'', [''json'']), (''api_key'', [''k3y''])])
     = map_of (addSignature example_client [(''api_key'', [''k3y'']), (''format'', [''json''])])"
  using C5_signature_deterministic [of "[(''format'', [''json'']), (''api_key'', [''k3y''])]"
      "[(''api_key'', [''k3y'']), (''format'', [''json''])]" example_client]
  by (simp add: fun_eq_iff)

lemma length_md5_Sum: "length (md5_Sum msg) = 16"
proof -
  obtain a b c d where
    "foldl md5_block (0x67452301, 0xefcdab89, 0x98badcfe, 0x10325476) (chunks 64 (md5_pad msg))
      = (a, b, c, d)"
    by (metis prod_cases4)
  then show ?thesis
    by (simp add: md5_Sum_def bytes_le_def)
qed

lemma length_hex_EncodeToString: "length (hex_EncodeToString bs) = 2 * length bs"
  by (induction bs) (simp_all add: hex_EncodeToString_def)

text \<open>For every client and every parameter mapping the signature is 16 bytes long, and so is
  never the 32 hexadecimal digits of the digest.\<close>

lemma signature_not_hex:
  "length (signature m args) = 16
   \<and> signature m args \<noteq> hex_EncodeToString (md5_Sum (map byte_of_char (Values_Encode args @ Secret m)))"
proof -
  have l: "length (signature m args) = 16"
    by (simp add: signature_def string_of_bytes_def length_md5_Sum)
  have "length (hex_EncodeToString (md5_Sum (map byte_of_char (Values_Encode args @ Secret m)))) = 32"
    by (simp add: length_hex_EncodeToString length_md5_Sum)
  with l show ?thesis by auto
qed

lemma example_digest:
  "md5_Sum (map byte_of_char (Values_Encode [(''format'', [''json''])] @ Secret example_client))
     = [0x22, 0xE9, 0x47, 0xCE, 0xDF, 0xAF, 0x1F, 0x47, 0x5A, 0xF5, 0x45, 0x3F, 0x0C, 0x8C, 0x64, 0xCD]"
  by code_simp

text \<open>
  Claim C4 (the code departs from it). The claim: the \<open>sig\<close> value is the hexadecimal
  rendering of the digest. The code, for the example client and the mapping \<open>format=json\<close>:
  the value stored under \<open>sig\<close> is the 16 bytes of the digest themselves, while the
  hexadecimal rendering of the same digest is the 32 characters \<open>22e9...64cd\<close>; the
  stored value is not made of hexadecimal digits.
\<close>

theorem C4_signature_is_raw_digest:
  "Values_Get (addSignature example_client [(''format'', [''json''])]) ''sig''
     = [[CHR 0x22, CHR 0xE9, CHR 0x47, CHR 0xCE, CHR 0xDF, CHR 0xAF, CHR 0x1F, CHR 0x47,
         CHR 0x5A, CHR 0xF5, CHR 0x45, CHR 0x3F, CHR 0x0C, CHR 0x8C, CHR 0x64, CHR 0xCD]]
   \<and> hex_EncodeToString (md5_Sum (map byte_of_char
         (Values_Encode [(''format'', [''json''])] @ Secret example_client)))
     = ''22e947cedfaf1f475af5453f0c8c64cd''
   \<and> \<not> list_all is_hex_digit (signature example_client [(''format'', [''json''])])"
  unfolding addSignature_def signature_def example_digest
  by code_simp

subsection \<open>The query of the request\<close>

lemma char_of_digit:
  "char_of (48::nat) = CHR ''0''" "char_of (49::nat) = CHR ''1''" "char_of (50::nat) = CHR ''2''"
  "char_of (51::nat) = CHR ''3''" "char_of (52::nat) = CHR ''4''" "char_of (53::nat) = CHR ''5''"
  "char_of (54::nat) = CHR ''6''" "char_of (55::nat) = CHR ''7''" "char_of (56::nat) = CHR ''8''"
  "char_of (57::nat) = CHR ''9''"
  by code_simp+

lemma Values_Set_same: "Values_Get (Values_Set k x v) k = [x]"
  by (simp add: Values_Get_def Values_Set_def update_conv')

lemma Values_Set_other: "k \<noteq> k' \<Longrightarrow> Values_Get (Values_Set k' x v) k = Values_Get v k"
  by (simp add: Values_Get_def Values_Set_def update_conv')

lemma Values_Add_prefix: "prefix (Values_Get v k) (Values_Get (Values_Add k' x v) k)"
  by (cases "k = k'") (simp_all add: Values_Get_def Values_Add_def update_conv')

lemma add_values_prefix:
  "prefix (Values_Get v k) (Values_Get (foldl (\<lambda>a' x. Values_Add k' x a') v xs) k)"
proof (induction xs arbitrary: v)
  case Nil
  show ?case by simp
next
  case (Cons x xs)
  have "prefix (Values_Get v k) (Values_Get (Values_Add k' x v) k)"
    by (rule Values_Add_prefix)
  also have "prefix \<dots> (Values_Get (foldl (\<lambda>a' x. Values_Add k' x a') (Values_Add k' x v) xs) k)"
    by (rule Cons.IH)
  finally show ?case by simp
qed

lemma add_moreArgs_prefix: "prefix (Values_Get v k) (Values_Get (add_moreArgs extra v) k)"
  unfolding add_moreArgs_def
proof (induction extra arbitrary: v)
  case Nil
  show ?case by simp
next
  case (Cons kv extra)
  obtain k' xs where kv: "kv = (k', xs)" by (cases kv)
  have "prefix (Values_Get v k) (Values_Get (foldl (\<lambda>a' x. Values_Add k' x a') v xs) k)"
    by (rule add_values_prefix)
  also have "prefix \<dots> (Values_Get (foldl (\<lambda>a (k, vs). foldl (\<lambda>a' x. Values_Add k x a') a vs)
        (foldl (\<lambda>a' x. Values_Add k' x a') v xs) extra) k)"
    by (rule Cons.IH)
  finally show ?case by (simp add: kv)
qed

text \<open>
  What the query of every request holds: \<open>format\<close> starts with \<open>json\<close>,
  \<open>api_key\<close> with the client's key and \<open>expire\<close> with the converted integer (the
  caller's extra parameters may add values after them); \<open>start\<close> and \<open>end\<close> are
  the formatted date alone.
\<close>

lemma ExportDate_args_query:
  "prefix [''json''] (Values_Get (ExportDate_args m now date moreArgs) ''format'')
   \<and> prefix [Key m] (Values_Get (ExportDate_args m now date moreArgs) ''api_key'')
   \<and> prefix [string_of_int64 (now + 10000)] (Values_Get (ExportDate_args m now date moreArgs) ''expire'')
   \<and> Values_Get (ExportDate_args m now date moreArgs) ''start'' = [Format_date date]
   \<and> Values_Get (ExportDate_args m now date moreArgs) ''end'' = [Format_date date]"
proof (cases moreArgs)
  case None
  then show ?thesis
    by (simp add: ExportDate_args_def Let_def addSignature_def makeArgs_def Values_Set_same
          Values_Set_other)
next
  case (Some extra)
  have "Values_Get (makeArgs m now) ''format'' = [''json'']"
       "Values_Get (makeArgs m now) ''api_key'' = [Key m]"
       "Values_Get (makeArgs m now) ''expire'' = [string_of_int64 (now + 10000)]"
    by (simp_all add: makeArgs_def Values_Set_same Values_Set_other)
  then have "prefix [''json''] (Values_Get (add_moreArgs extra (makeArgs m now)) ''format'')"
       "prefix [Key m] (Values_Get (add_moreArgs extra (makeArgs m now)) ''api_key'')"
       "prefix [string_of_int64 (now + 10000)] (Values_Get (add_moreArgs extra (makeArgs m now)) ''expire'')"
    by (metis add_moreArgs_prefix)+
  with Some show ?thesis
    by (simp add: ExportDate_args_def Let_def addSignature_def Values_Set_same Values_Set_other)
qed

lemma ExportDate_args_expire:
  "Values_Get (ExportDate_args m now date None) ''expire'' = [string_of_int64 (now + 10000)]"
  by (simp add: ExportDate_args_def Let_def addSignature_def makeArgs_def Values_Set_same
        Values_Set_other)

text \<open>Every time later than twelve days after the epoch gives the same \<open>expire\<close>.\<close>

lemma string_of_int64_big:
  "0x10FFFF < sint n \<Longrightarrow> string_of_int64 n = [CHR 0xEF, CHR 0xBF, CHR 0xBD]"
  by (simp add: string_of_int64_def)

text \<open>
  Claim C9 (the code departs from it). The claim: \<open>expire\<close> is the decimal rendering of
  a Unix timestamp. The code, for the example client at the time 1700000000: \<open>expire\<close>
  is the three bytes of the UTF-8 encoding of U+FFFD, while the decimal rendering of the
  timestamp is \<open>1700010000\<close>. The other parameters are as the claim says: \<open>format\<close>
  is \<open>json\<close>, \<open>api_key\<close> is the client's key, \<open>start\<close> and \<open>end\<close> are the
  date as \<open>2013-02-07\<close>.
\<close>

theorem C9_expire_is_not_decimal:
  "Values_Get (ExportDate_args example_client 1700000000 example_date None) ''expire''
     = [[CHR 0xEF, CHR 0xBF, CHR 0xBD]]
   \<and> FormatInt (1700000000 + 10000) = ''1700010000''
   \<and> Values_Get (ExportDate_args example_client 1700000000 example_date None) ''format'' = [''json'']
   \<and> Values_Get (ExportDate_args example_client 1700000000 example_date None) ''api_key'' = [''k3y'']
   \<and> Values_Get (ExportDate_args example_client 1700000000 example_date None) ''start'' = [''2013-02-07'']
   \<and> Values_Get (ExportDate_args example_client 1700000000 example_date None) ''end'' = [''2013-02-07'']"
proof -
  have "string_of_int64 (1700000000 + 10000) = [CHR 0xEF, CHR 0xBF, CHR 0xBD]"
    by (simp add: string_of_int64_def)
  moreover have "FormatInt (1700000000 + 10000) = ''1700010000''"
    by (simp add: FormatInt_def char_of_digit)
  moreover have "Format_date example_date = ''2013-02-07''"
    by (simp add: Format_date_def appendInt_def example_date_def char_of_digit)
  moreover have "Key example_client = ''k3y''"
    by (simp add: example_client_def New_def NewWithURL_def)
  ultimately show ?thesis
    by (simp add: ExportDate_args_def Let_def addSignature_def makeArgs_def Values_Set_same
          Values_Set_other)
qed

text \<open>The request that the example sends.\<close>

lemma example_url:
  "ExportDate_url example_client 1700000000 example_date None
    = ''http://mixpanel.com/api/2.0/export?api_key=k3y&end=2013-02-07&expire=%EF%BF%BD&format=json&sig=0%01%BF%5E%17%99%E1%02%C2C%A6%B2%A3%2Fh%F9&start=2013-02-07''"
  by code_simp

end
